theory Spec2Isabelle
  imports Complex_Main "HOL-Library.Sublist" "HOL-Library.Finite_Map"
begin

section \<open>JavaScript strings and errors\<close>

text \<open>
  A JavaScript string is a sequence of UTF-16 code units. The services compare and search
  strings that contain CJK text, so a string is modelled as the list of its code units;
  \<open>ascii\<close> embeds an ASCII literal.
\<close>

type_synonym jsstring = "nat list"

definition ascii :: "string \<Rightarrow> jsstring" where
  "ascii s = map of_char s"

text \<open>\<open>String.prototype.includes\<close>: the search string occurs as a contiguous run.\<close>

definition js_includes :: "jsstring \<Rightarrow> jsstring \<Rightarrow> bool" where
  "js_includes s searchString = sublist searchString s"

text \<open>
  A thrown value is an error object with a \<open>name\<close> and a \<open>message\<close>;
  \<open>toString\<close> is \<open>Error.prototype.toString\<close>.
\<close>

record js_error =
  err_name :: jsstring
  err_message :: jsstring

definition Error :: "jsstring \<Rightarrow> js_error" where
  "Error msg = \<lparr>err_name = ascii ''Error'', err_message = msg\<rparr>"

definition TypeError :: "jsstring \<Rightarrow> js_error" where
  "TypeError msg = \<lparr>err_name = ascii ''TypeError'', err_message = msg\<rparr>"

definition toString :: "js_error \<Rightarrow> jsstring" where
  "toString e =
     (if err_name e = [] then err_message e
      else if err_message e = [] then err_name e
      else err_name e @ ascii '': '' @ err_message e)"

section \<open>geminiService: the retry executor\<close>

text \<open>
  The response of the generation API. \<open>response_text\<close> is the \<open>text\<close> accessor, which
  may be undefined (\<open>None\<close>) or the empty string. One call of the remote operation
  either rejects with an error or resolves with a response (or with no response object).
\<close>

record GenerateContentResponse =
  response_text :: "jsstring option"

datatype attempt = Rejected js_error | Resolved "GenerateContentResponse option"

text \<open>
  What a run of the executor did: the value it returned (\<open>Inr\<close>) or threw (\<open>Inl\<close>),
  how many times it called the remote operation, and the timer delays it waited, in order.
\<close>

record ('e, 'a) retry_run =
  outcome :: "'e + 'a"
  calls :: nat
  slept :: "int list"

text \<open>\<open>Math.floor(Math.random() * 1000)\<close>, from the value \<open>Math.random()\<close> returned.\<close>

definition jitter_of :: "real \<Rightarrow> int" where
  "jitter_of r = \<lfloor>r * 1000\<rfloor>"

text \<open>The body of the \<open>try\<close> block of \<open>generateContentWithRetry\<close>.\<close>

definition generateContent_try :: "attempt \<Rightarrow> js_error + GenerateContentResponse" where
  "generateContent_try a =
     (case a of
        Rejected error \<Rightarrow> Inl error
      | Resolved None \<Rightarrow> Inl (Error (ascii ''AI returned an empty or invalid response.''))
      | Resolved (Some response) \<Rightarrow>
          (if response_text response = None \<or> response_text response = Some []
           then Inl (Error (ascii ''AI returned an empty or invalid response.''))
           else Inr response))"

text \<open>The classification in the \<open>catch\<close> block of \<open>generateContentWithRetry\<close>.\<close>

definition isRetryable :: "jsstring \<Rightarrow> bool" where
  "isRetryable errorMessage \<longleftrightarrow>
     js_includes errorMessage (ascii ''500'') \<or> js_includes errorMessage (ascii ''503'')
     \<or> js_includes errorMessage (ascii ''429'') \<or> js_includes errorMessage (ascii ''Rpc failed'')"

text \<open>
  The \<open>for\<close> loop of \<open>generateContentWithRetry\<close>. \<open>generateContent i\<close> is the outcome of
  the call made in iteration \<open>i\<close>, \<open>random i\<close> the value \<open>Math.random()\<close> returns there.
  \<open>lastError\<close> is \<open>None\<close> while it is still undefined.
\<close>

function generateContentWithRetry_loop ::
  "(nat \<Rightarrow> attempt) \<Rightarrow> (nat \<Rightarrow> real) \<Rightarrow> nat \<Rightarrow> nat \<Rightarrow> int \<Rightarrow> js_error option \<Rightarrow> int list
     \<Rightarrow> (js_error option, GenerateContentResponse) retry_run" where
  "generateContentWithRetry_loop generateContent random retries i delay lastError waited =
     (if i < retries then
        (case generateContent_try (generateContent i) of
           Inr response \<Rightarrow> \<lparr>outcome = Inr response, calls = Suc i, slept = waited\<rparr>
         | Inl error \<Rightarrow>
             (if isRetryable (toString error) \<and> int i < int retries - 1 then
                generateContentWithRetry_loop generateContent random retries (Suc i) (delay * 2)
                  (Some error) (waited @ [delay + jitter_of (random i)])
              else \<lparr>outcome = Inl (Some error), calls = Suc i, slept = waited\<rparr>))
      else \<lparr>outcome = Inl lastError, calls = i, slept = waited\<rparr>)"
  by pat_completeness auto
termination
  by (relation "measure (\<lambda>(generateContent, random, retries, i, delay, lastError, waited). retries - i)")
     auto

definition generateContentWithRetry ::
  "(nat \<Rightarrow> attempt) \<Rightarrow> (nat \<Rightarrow> real) \<Rightarrow> nat \<Rightarrow> int
     \<Rightarrow> (js_error option, GenerateContentResponse) retry_run" where
  "generateContentWithRetry generateContent random retries delay =
     generateContentWithRetry_loop generateContent random retries 0 delay None []"

text \<open>
  The user-facing messages of the service are Traditional Chinese; each is given by its
  UTF-16 code units. \<open>msg_no_text\<close> is the message of the error \<open>getSocraticResponse\<close>
  throws for a reply without text and \<open>msg_no_text_marker\<close> the prefix of it that the
  \<open>catch\<close> block searches for; \<open>msg_bad_format\<close> is the message of \<open>parseJsonFromResponse\<close>;
  the other five are the messages of \<open>handleApiError\<close>.
\<close>

definition msg_default :: jsstring where
  "msg_default =
     [24478, 32, 65, 73, 32, 20282, 26381, 22120, 29554, 21462, 36039, 26009, 26178, 30332,
      29983, 37679, 35492, 12290, 35531, 31245, 24460, 20877, 35430, 12290]"

definition msg_unavailable :: jsstring where
  "msg_unavailable =
     [65, 73, 32, 20282, 26381, 22120, 30446, 21069, 28961, 27861, 36899, 32218, 25110, 30332,
      29983, 20839, 37096, 37679, 35492, 65292, 35531, 31245, 24460, 20877, 35430, 12290]"

definition msg_bad_request :: jsstring where
  "msg_bad_request =
     [21521, 32, 65, 73, 32, 20282, 26381, 22120, 30332, 36865, 30340, 35531, 27714, 26684,
      24335, 26377, 35492, 32, 40, 37679, 35492, 32, 52, 48, 48, 41, 65292, 36889, 21487,
      33021, 26159, 30001, 26044, 36664, 20837, 20839, 23481, 21253, 21547, 19981, 23433,
      20840, 25110, 19981, 25903, 25588, 30340, 23383, 35422, 12290]"

definition msg_rate_limited :: jsstring where
  "msg_rate_limited =
     [24744, 30340, 35531, 27714, 38971, 29575, 36942, 39640, 65292, 35531, 31245, 24460,
      20877, 35430, 12290]"

definition msg_api_key :: jsstring where
  "msg_api_key =
     [65, 80, 73, 32, 37329, 38000, 28961, 25928, 25110, 26410, 35373, 32622, 65292, 35531,
      27298, 26597, 24744, 30340, 29872, 22659, 35373, 23450, 12290]"

definition msg_no_text :: jsstring where
  "msg_no_text =
     [65, 73, 32, 22238, 25033, 28961, 25928, 65292, 26410, 21253, 21547, 20219, 20309, 25991,
      23383, 12290]"

definition msg_no_text_marker :: jsstring where
  "msg_no_text_marker = [65, 73, 32, 22238, 25033, 28961, 25928]"

definition msg_bad_format :: jsstring where
  "msg_bad_format =
     [65, 73, 32, 36820, 22238, 30340, 36039, 26009, 26684, 24335, 19981, 27491, 30906, 65292,
      28961, 27861, 35299, 26512, 12290]"

text \<open>
  \<open>handleApiError\<close> turns a caught error into an error with a user-facing message. Its
  second argument only labels the console log.
\<close>

definition handleApiError :: "js_error \<Rightarrow> jsstring \<Rightarrow> js_error" where
  "handleApiError error ctxt =
     (let errorMessage = toString error in
      Error
        (if js_includes errorMessage (ascii ''500'') \<or> js_includes errorMessage (ascii ''503'')
            \<or> js_includes errorMessage (ascii ''Rpc failed'')
         then msg_unavailable
         else if js_includes errorMessage (ascii ''400'') then msg_bad_request
         else if js_includes errorMessage (ascii ''429'') then msg_rate_limited
         else if js_includes errorMessage (ascii ''API key not valid'')
            \<or> js_includes errorMessage (ascii ''API_KEY'')
         then msg_api_key
         else msg_default))"

text \<open>
  The body of the \<open>try\<close> block of \<open>getSocraticResponse\<close>: the chat call, then the check
  of \<open>result.text\<close>. Reading \<open>text\<close> of a missing result is a \<open>TypeError\<close>.
\<close>

definition getSocraticResponse_try :: "attempt \<Rightarrow> js_error + jsstring" where
  "getSocraticResponse_try a =
     (case a of
        Rejected error \<Rightarrow> Inl error
      | Resolved None \<Rightarrow>
          Inl (TypeError (ascii ''Cannot read properties of undefined (reading '' @ [39]
                 @ ascii ''text'' @ [39] @ ascii '')''))
      | Resolved (Some result) \<Rightarrow>
          (case response_text result of
             None \<Rightarrow> Inl (Error msg_no_text)
           | Some responseText \<Rightarrow>
               if responseText = [] then Inl (Error msg_no_text) else Inr responseText))"

text \<open>The classification in the \<open>catch\<close> block of \<open>getSocraticResponse\<close>.\<close>

definition isRetryable_socratic :: "jsstring \<Rightarrow> bool" where
  "isRetryable_socratic errorMessage \<longleftrightarrow>
     js_includes errorMessage (ascii ''500'') \<or> js_includes errorMessage (ascii ''503'')
     \<or> js_includes errorMessage (ascii ''429'') \<or> js_includes errorMessage (ascii ''Rpc failed'')
     \<or> js_includes errorMessage msg_no_text_marker"

text \<open>
  The \<open>for\<close> loop of \<open>getSocraticResponse\<close>; \<open>retries\<close> and the first \<open>delay\<close> are
  the constants 5 and 3000 of the source. Falling out of the loop would call
  \<open>handleApiError\<close> on an undefined \<open>lastError\<close>, a \<open>TypeError\<close>.
\<close>

function getSocraticResponse_loop ::
  "(nat \<Rightarrow> attempt) \<Rightarrow> (nat \<Rightarrow> real) \<Rightarrow> nat \<Rightarrow> nat \<Rightarrow> int \<Rightarrow> js_error option \<Rightarrow> int list
     \<Rightarrow> (js_error, jsstring) retry_run" where
  "getSocraticResponse_loop sendMessage random retries i delay lastError waited =
     (if i < retries then
        (case getSocraticResponse_try (sendMessage i) of
           Inr responseText \<Rightarrow> \<lparr>outcome = Inr responseText, calls = Suc i, slept = waited\<rparr>
         | Inl error \<Rightarrow>
             (if isRetryable_socratic (toString error) \<and> int i < int retries - 1 then
                getSocraticResponse_loop sendMessage random retries (Suc i) (delay * 2)
                  (Some error) (waited @ [delay + jitter_of (random i)])
              else \<lparr>outcome = Inl (handleApiError error (ascii ''getSocraticResponse'')),
                     calls = Suc i, slept = waited\<rparr>))
      else
        \<lparr>outcome =
           (case lastError of
              Some error \<Rightarrow> Inl (handleApiError error (ascii ''getSocraticResponse''))
            | None \<Rightarrow>
                Inl (TypeError (ascii ''Cannot read properties of undefined (reading '' @ [39]
                       @ ascii ''toString'' @ [39] @ ascii '')''))),
         calls = i, slept = waited\<rparr>)"
  by pat_completeness auto
termination
  by (relation "measure (\<lambda>(sendMessage, random, retries, i, delay, lastError, waited). retries - i)")
     auto

definition getSocraticResponse ::
  "(nat \<Rightarrow> attempt) \<Rightarrow> (nat \<Rightarrow> real) \<Rightarrow> (js_error, jsstring) retry_run" where
  "getSocraticResponse sendMessage random =
     getSocraticResponse_loop sendMessage random 5 0 3000 None []"

text \<open>
  A reply that carries no text: the call resolves with a response object whose \<open>text\<close>
  is undefined or empty.
\<close>

definition no_text :: "attempt \<Rightarrow> bool" where
  "no_text a \<longleftrightarrow>
     (case a of
        Resolved (Some response) \<Rightarrow>
          response_text response = None \<or> response_text response = Some []
      | _ \<Rightarrow> False)"



section \<open>geminiService: the structured-response parser\<close>

subsection \<open>Trimming and fence removal\<close>

text \<open>
  \<open>String.prototype.trim\<close> removes the white space and line terminator code units of
  ECMAScript from both ends.
\<close>

definition is_js_whitespace :: "nat \<Rightarrow> bool" where
  "is_js_whitespace c \<longleftrightarrow>
     c \<in> {9, 10, 11, 12, 13, 32, 160, 5760, 8232, 8233, 8239, 8287, 12288, 65279}
     \<or> (8192 \<le> c \<and> c \<le> 8202)"

definition trim :: "jsstring \<Rightarrow> jsstring" where
  "trim s = rev (dropWhile is_js_whitespace (rev (dropWhile is_js_whitespace s)))"

text \<open>
  The two replacements of \<open>parseJsonFromResponse\<close>. The first pattern is anchored at the
  start: three backticks (code unit 96), the letters \<open>json\<close> and at most one line feed. The
  second is anchored at the end of the string: three backticks. Each replaces its match,
  if there is one, by the empty string.
\<close>

definition fence :: jsstring where
  "fence = [96, 96, 96]"

definition replace_leading_json_fence :: "jsstring \<Rightarrow> jsstring" where
  "replace_leading_json_fence s =
     (if prefix (fence @ ascii ''json'') s then
        (let r = drop (length (fence @ ascii ''json'')) s
         in if r \<noteq> [] \<and> hd r = 10 then tl r else r)
      else s)"

definition replace_trailing_fence :: "jsstring \<Rightarrow> jsstring" where
  "replace_trailing_fence s =
     (if suffix fence s then take (length s - length fence) s else s)"

subsection \<open>The JSON reader\<close>

text \<open>
  \<open>JSON.parse\<close> is a service of the JavaScript runtime; this is its grammar (ECMA-404) as
  a recursive-descent reader. A number is kept as the exact value of its literal, an
  object as the finite map from its keys to their values (a repeated key keeps the last
  value). \<open>None\<close> stands for the \<open>SyntaxError\<close> \<open>JSON.parse\<close> throws.
\<close>

datatype json =
  JNull
| JBool bool
| JNumber real
| JString jsstring
| JArray "json list"
| JObject "(jsstring, json) fmap"

definition is_json_whitespace :: "nat \<Rightarrow> bool" where
  "is_json_whitespace c \<longleftrightarrow> c = 32 \<or> c = 9 \<or> c = 10 \<or> c = 13"

definition skip_ws :: "jsstring \<Rightarrow> jsstring" where
  "skip_ws s = dropWhile is_json_whitespace s"

definition is_digit :: "nat \<Rightarrow> bool" where
  "is_digit c \<longleftrightarrow> 48 \<le> c \<and> c \<le> 57"

definition digits_value :: "jsstring \<Rightarrow> nat" where
  "digits_value ds = foldl (\<lambda>a d. 10 * a + (d - 48)) 0 ds"

definition hex_value :: "nat \<Rightarrow> nat option" where
  "hex_value c =
     (if 48 \<le> c \<and> c \<le> 57 then Some (c - 48)
      else if 65 \<le> c \<and> c \<le> 70 then Some (c - 55)
      else if 97 \<le> c \<and> c \<le> 102 then Some (c - 87)
      else None)"

definition hex4 :: "jsstring \<Rightarrow> nat option" where
  "hex4 s =
     (case map hex_value (take 4 s) of
        [Some a, Some b, Some c, Some d] \<Rightarrow> Some (((a * 16 + b) * 16 + c) * 16 + d)
      | _ \<Rightarrow> None)"

definition unescape :: "nat \<Rightarrow> nat option" where
  "unescape e =
     (if e = 34 \<or> e = 92 \<or> e = 47 then Some e
      else if e = 98 then Some 8
      else if e = 102 then Some 12
      else if e = 110 then Some 10
      else if e = 114 then Some 13
      else if e = 116 then Some 9
      else None)"

text \<open>The characters of a string after its opening quote, up to the closing quote.\<close>

fun parse_string :: "jsstring \<Rightarrow> (jsstring \<times> jsstring) option" where
  "parse_string [] = None"
| "parse_string (c # cs) =
     (if c = 34 then Some ([], cs)
      else if c = 92 then
        (case cs of
           [] \<Rightarrow> None
         | e # cs' \<Rightarrow>
             if e = 117 then
               (case hex4 cs' of
                  None \<Rightarrow> None
                | Some u \<Rightarrow> map_option (\<lambda>(str, r). (u # str, r)) (parse_string (drop 4 cs')))
             else
               (case unescape e of
                  None \<Rightarrow> None
                | Some ch \<Rightarrow> map_option (\<lambda>(str, r). (ch # str, r)) (parse_string cs')))
      else if c < 32 then None
      else map_option (\<lambda>(str, r). (c # str, r)) (parse_string cs))"

text \<open>
  A number: an optional minus sign, an integer part without a leading zero, an optional
  fraction and an optional exponent.
\<close>

definition parse_number :: "jsstring \<Rightarrow> (json \<times> jsstring) option" where
  "parse_number s =
     (let negative = (s \<noteq> [] \<and> hd s = 45);
          s1 = (if negative then tl s else s);
          ip = takeWhile is_digit s1;
          s2 = dropWhile is_digit s1
      in if ip = [] \<or> (hd ip = 48 \<and> length ip > 1) then None
         else
           (let has_frac = (s2 \<noteq> [] \<and> hd s2 = 46);
                fp = (if has_frac then takeWhile is_digit (tl s2) else []);
                s3 = (if has_frac then dropWhile is_digit (tl s2) else s2)
            in if has_frac \<and> fp = [] then None
               else
                 (let has_exp = (s3 \<noteq> [] \<and> (hd s3 = 101 \<or> hd s3 = 69));
                      s4 = (if has_exp then tl s3 else s3);
                      exp_negative = (has_exp \<and> s4 \<noteq> [] \<and> hd s4 = 45);
                      s5 = (if has_exp \<and> s4 \<noteq> [] \<and> (hd s4 = 45 \<or> hd s4 = 43) then tl s4 else s4);
                      ep = (if has_exp then takeWhile is_digit s5 else []);
                      s6 = (if has_exp then dropWhile is_digit s5 else s3)
                  in if has_exp \<and> ep = [] then None
                     else
                       (let mantissa = real (digits_value ip)
                              + real (digits_value fp) / 10 ^ length fp;
                            scaled = (if exp_negative then mantissa / 10 ^ digits_value ep
                                      else mantissa * 10 ^ digits_value ep)
                        in Some (JNumber (if negative then - scaled else scaled), s6)))))"

text \<open>
  Values, the elements of an array after its opening bracket, and the members of an
  object after its opening brace. The first argument bounds the depth of the calls.
\<close>

fun parse_value :: "nat \<Rightarrow> jsstring \<Rightarrow> (json \<times> jsstring) option"
  and parse_elements :: "nat \<Rightarrow> jsstring \<Rightarrow> (json list \<times> jsstring) option"
  and parse_members :: "nat \<Rightarrow> (jsstring, json) fmap \<Rightarrow> jsstring \<Rightarrow> (json \<times> jsstring) option"
where
  "parse_value 0 s = None"
| "parse_value (Suc n) s =
     (case skip_ws s of
        [] \<Rightarrow> None
      | c # cs \<Rightarrow>
          if c = 123 then
            (if skip_ws cs \<noteq> [] \<and> hd (skip_ws cs) = 125 then Some (JObject fmempty, tl (skip_ws cs))
             else parse_members n fmempty cs)
          else if c = 91 then
            (if skip_ws cs \<noteq> [] \<and> hd (skip_ws cs) = 93 then Some (JArray [], tl (skip_ws cs))
             else map_option (\<lambda>(vs, r). (JArray vs, r)) (parse_elements n cs))
          else if c = 34 then map_option (\<lambda>(str, r). (JString str, r)) (parse_string cs)
          else if prefix (ascii ''true'') (c # cs) then Some (JBool True, drop 4 (c # cs))
          else if prefix (ascii ''false'') (c # cs) then Some (JBool False, drop 5 (c # cs))
          else if prefix (ascii ''null'') (c # cs) then Some (JNull, drop 4 (c # cs))
          else parse_number (c # cs))"
| "parse_elements 0 s = None"
| "parse_elements (Suc n) s =
     (case parse_value n s of
        None \<Rightarrow> None
      | Some (v, r) \<Rightarrow>
          (case skip_ws r of
             [] \<Rightarrow> None
           | c # r' \<Rightarrow>
               if c = 44 then map_option (\<lambda>(vs, r''). (v # vs, r'')) (parse_elements n r')
               else if c = 93 then Some ([v], r')
               else None))"
| "parse_members 0 acc s = None"
| "parse_members (Suc n) acc s =
     (case skip_ws s of
        [] \<Rightarrow> None
      | q # cs \<Rightarrow>
          if q \<noteq> 34 then None
          else
            (case parse_string cs of
               None \<Rightarrow> None
             | Some (key, r) \<Rightarrow>
                 (case skip_ws r of
                    [] \<Rightarrow> None
                  | colon # r' \<Rightarrow>
                      if colon \<noteq> 58 then None
                      else
                        (case parse_value n r' of
                           None \<Rightarrow> None
                         | Some (v, r'') \<Rightarrow>
                             (case skip_ws r'' of
                                [] \<Rightarrow> None
                              | c # r3 \<Rightarrow>
                                  if c = 44 then parse_members n (fmupd key v acc) r3
                                  else if c = 125 then Some (JObject (fmupd key v acc), r3)
                                  else None)))))"

definition JSON_parse :: "jsstring \<Rightarrow> json option" where
  "JSON_parse text =
     (case parse_value (2 * length text + 2) text of
        None \<Rightarrow> None
      | Some (v, r) \<Rightarrow> if skip_ws r = [] then Some v else None)"

subsection \<open>parseJsonFromResponse\<close>

definition parseJsonFromResponse :: "jsstring \<Rightarrow> js_error + json" where
  "parseJsonFromResponse text =
     (let cleanedText = replace_trailing_fence (replace_leading_json_fence (trim text))
      in case JSON_parse cleanedText of
           Some v \<Rightarrow> Inr v
         | None \<Rightarrow> Inl (Error msg_bad_format))"

text \<open>
  The payloads of the reference cases: the object text \<open>{"a":1}\<close>, the same text wrapped
  in a fence with the language tag \<open>json\<close>, and wrapped in a bare fence.
\<close>

definition quoted :: "string \<Rightarrow> jsstring" where
  "quoted s = [34] @ ascii s @ [34]"

definition payload_plain :: jsstring where
  "payload_plain = ascii ''{'' @ quoted ''a'' @ ascii '':1}''"

definition payload_json_fenced :: jsstring where
  "payload_json_fenced = fence @ ascii ''json'' @ [10] @ payload_plain @ [10] @ fence"

definition payload_bare_fenced :: jsstring where
  "payload_bare_fenced = fence @ [10] @ payload_plain @ [10] @ fence"

section \<open>exportService: paginated PDF export\<close>

text \<open>
  What \<open>html2canvas\<close> produces for a block: a bitmap with its pixel width and height;
  \<open>canvas_data\<close> stands for the picture (the result of \<open>toDataURL\<close>). Lengths on the page are
  JavaScript numbers in millimetres, taken as real numbers here.
\<close>

record 'd canvas =
  canvas_width :: nat
  canvas_height :: nat
  canvas_data :: 'd

text \<open>
  The document under construction: its pages in order, each the list of what was drawn on
  it. The last page is the current one. An image is recorded with the arguments of
  \<open>addImage\<close> (picture, x, y, width, height), a rule with the arguments of \<open>line\<close>.
\<close>

datatype 'd drawn =
  Image 'd real real real real
| Line real real real real

type_synonym 'd jsPDF = "'d drawn list list"

definition new_jsPDF :: "'d jsPDF" where
  "new_jsPDF = [[]]"

definition addPage :: "'d jsPDF \<Rightarrow> 'd jsPDF" where
  "addPage pdf = pdf @ [[]]"

definition draw :: "'d jsPDF \<Rightarrow> 'd drawn \<Rightarrow> 'd jsPDF" where
  "draw pdf item = butlast pdf @ [last pdf @ [item]]"

definition addImage :: "'d jsPDF \<Rightarrow> 'd \<Rightarrow> real \<Rightarrow> real \<Rightarrow> real \<Rightarrow> real \<Rightarrow> 'd jsPDF" where
  "addImage pdf imgData x y w h = draw pdf (Image imgData x y w h)"

definition line :: "'d jsPDF \<Rightarrow> real \<Rightarrow> real \<Rightarrow> real \<Rightarrow> real \<Rightarrow> 'd jsPDF" where
  "line pdf x1 y1 x2 y2 = draw pdf (Line x1 y1 x2 y2)"

text \<open>Where an item starts on its page and how much height it takes.\<close>

fun top_of :: "'d drawn \<Rightarrow> real" where
  "top_of (Image imgData x y w h) = y"
| "top_of (Line x1 y1 x2 y2) = y1"

fun left_of :: "'d drawn \<Rightarrow> real" where
  "left_of (Image imgData x y w h) = x"
| "left_of (Line x1 y1 x2 y2) = x1"

fun height_of :: "'d drawn \<Rightarrow> real" where
  "height_of (Image imgData x y w h) = h"
| "height_of (Line x1 y1 x2 y2) = y2 - y1"

text \<open>The mutable state of the loop: the document and the cursor \<open>currentY\<close>.\<close>

record 'd export_state =
  pdf :: "'d jsPDF"
  currentY :: real

text \<open>
  \<open>(canvas.height / canvas.width) * usableWidthMM\<close>. The quotient is that of the real
  numbers; the layout properties below are stated for canvases of positive width, where it
  is the quotient JavaScript computes up to rounding.
\<close>

definition elementHeightMM :: "'d canvas \<Rightarrow> real \<Rightarrow> real" where
  "elementHeightMM canvas usableWidthMM =
     (real (canvas_height canvas) / real (canvas_width canvas)) * usableWidthMM"

text \<open>
  The part of the loop body of \<open>exportToPdf\<close> that follows the rasterisation of a block:
  the page-break test, \<open>addImage\<close> and the advance of the cursor by the height and a gap
  of 2.
\<close>

definition place_image ::
  "real \<Rightarrow> real \<Rightarrow> real \<Rightarrow> 'd canvas \<Rightarrow> 'd export_state \<Rightarrow> 'd export_state" where
  "place_image margin usableWidthMM usableHeightMM canvas st =
     (let imgData = canvas_data canvas;
          h = elementHeightMM canvas usableWidthMM;
          st' = (if currentY st > margin \<and> currentY st + h > usableHeightMM + margin
                 then \<lparr>pdf = addPage (pdf st), currentY = margin\<rparr>
                 else st)
      in \<lparr>pdf = addImage (pdf st') imgData margin (currentY st') usableWidthMM h,
          currentY = currentY st' + h + 2\<rparr>)"

text \<open>
  The \<open>for\<close> loop of \<open>exportToPdf\<close> in \<open>services/exportService.ts\<close>. \<open>html2canvas\<close> gives
  the canvas of a block or the error its promise rejects with, which leaves the loop.
\<close>

fun exportToPdf_loop ::
  "('b \<Rightarrow> js_error + 'd canvas) \<Rightarrow> real \<Rightarrow> real \<Rightarrow> real \<Rightarrow> 'b list \<Rightarrow> 'd export_state
     \<Rightarrow> js_error + 'd export_state" where
  "exportToPdf_loop html2canvas margin usableWidthMM usableHeightMM [] st = Inr st"
| "exportToPdf_loop html2canvas margin usableWidthMM usableHeightMM (block # blocks) st =
     (case html2canvas block of
        Inl error \<Rightarrow> Inl error
      | Inr canvas \<Rightarrow>
          exportToPdf_loop html2canvas margin usableWidthMM usableHeightMM blocks
            (place_image margin usableWidthMM usableHeightMM canvas st))"

text \<open>
  What a call of \<open>exportToPdf\<close> leaves behind: the file written by \<open>pdf.save\<close> (name and
  document), the \<open>alert\<close> messages shown, the errors logged to the console, and whether
  the helper element is still attached to the page.
\<close>

record 'd export_effects =
  saved :: "(jsstring \<times> 'd jsPDF) option"
  alerts :: "jsstring list"
  logged :: "js_error list"
  sourceContainer_attached :: bool

definition msg_export_failed :: jsstring where
  "msg_export_failed =
     [28961, 27861, 23566, 20986, 28858, 32, 80, 68, 70, 12290, 35531, 31245, 24460, 20877,
      35430, 12290]"

text \<open>
  \<open>exportToPdf\<close> of \<open>services/exportService.ts\<close>. \<open>pdfWidth\<close> and \<open>pdfHeight\<close> are what
  the PDF library reports for an A4 portrait page; \<open>selected\<close> is the result of
  \<open>querySelectorAll\<close> on the helper element \<open>sourceContainer\<close>.
\<close>

definition contentBlocks :: "'b list \<Rightarrow> 'b \<Rightarrow> 'b list" where
  "contentBlocks selected sourceContainer =
     (if length selected = 0 then selected @ [sourceContainer] else selected)"

definition exportToPdf ::
  "('b \<Rightarrow> js_error + 'd canvas) \<Rightarrow> real \<Rightarrow> real \<Rightarrow> 'b list \<Rightarrow> 'b \<Rightarrow> jsstring
     \<Rightarrow> 'd export_effects" where
  "exportToPdf html2canvas pdfWidth pdfHeight selected sourceContainer filename =
     (let margin = 15;
          usableWidthMM = pdfWidth - (margin * 2);
          usableHeightMM = pdfHeight - (margin * 2)
      in case exportToPdf_loop html2canvas margin usableWidthMM usableHeightMM
                (contentBlocks selected sourceContainer) \<lparr>pdf = new_jsPDF, currentY = margin\<rparr> of
           Inr st \<Rightarrow>
             \<lparr>saved = Some (filename @ ascii ''.pdf'', pdf st), alerts = [], logged = [],
              sourceContainer_attached = False\<rparr>
         | Inl error \<Rightarrow>
             \<lparr>saved = None, alerts = [msg_export_failed], logged = [error],
              sourceContainer_attached = True\<rparr>)"

text \<open>
  The later revision of the service also selects \<open>hr\<close> elements and draws them as rules
  instead of rasterising them: a rule breaks the page when fewer than 10 units are left,
  is drawn at the cursor across the usable width and advances the cursor by 6.
\<close>

definition place_rule ::
  "real \<Rightarrow> real \<Rightarrow> real \<Rightarrow> 'd export_state \<Rightarrow> 'd export_state" where
  "place_rule margin pdfWidth usableHeightMM st =
     (let st' = (if currentY st + 10 > usableHeightMM + margin
                 then \<lparr>pdf = addPage (pdf st), currentY = margin\<rparr>
                 else st)
      in \<lparr>pdf = line (pdf st') margin (currentY st') (pdfWidth - margin) (currentY st'),
          currentY = currentY st' + 6\<rparr>)"

fun exportToPdf_rules_loop ::
  "('b \<Rightarrow> bool) \<Rightarrow> ('b \<Rightarrow> js_error + 'd canvas) \<Rightarrow> real \<Rightarrow> real \<Rightarrow> real \<Rightarrow> real \<Rightarrow> 'b list
     \<Rightarrow> 'd export_state \<Rightarrow> js_error + 'd export_state" where
  "exportToPdf_rules_loop is_hr html2canvas margin pdfWidth usableWidthMM usableHeightMM [] st = Inr st"
| "exportToPdf_rules_loop is_hr html2canvas margin pdfWidth usableWidthMM usableHeightMM
     (block # blocks) st =
     (if is_hr block then
        exportToPdf_rules_loop is_hr html2canvas margin pdfWidth usableWidthMM usableHeightMM blocks
          (place_rule margin pdfWidth usableHeightMM st)
      else
        (case html2canvas block of
           Inl error \<Rightarrow> Inl error
         | Inr canvas \<Rightarrow>
             exportToPdf_rules_loop is_hr html2canvas margin pdfWidth usableWidthMM usableHeightMM
               blocks (place_image margin usableWidthMM usableHeightMM canvas st)))"

definition exportToPdf_rules ::
  "('b \<Rightarrow> bool) \<Rightarrow> ('b \<Rightarrow> js_error + 'd canvas) \<Rightarrow> real \<Rightarrow> real \<Rightarrow> 'b list \<Rightarrow> 'b \<Rightarrow> jsstring
     \<Rightarrow> 'd export_effects" where
  "exportToPdf_rules is_hr html2canvas pdfWidth pdfHeight selected wrapper filename =
     (let margin = 15;
          usableWidthMM = pdfWidth - (margin * 2);
          usableHeightMM = pdfHeight - (margin * 2)
      in case exportToPdf_rules_loop is_hr html2canvas margin pdfWidth usableWidthMM usableHeightMM
                (contentBlocks selected wrapper) \<lparr>pdf = new_jsPDF, currentY = margin\<rparr> of
           Inr st \<Rightarrow>
             \<lparr>saved = Some (filename @ ascii ''.pdf'', pdf st), alerts = [], logged = [],
              sourceContainer_attached = False\<rparr>
         | Inl error \<Rightarrow>
             \<lparr>saved = None, alerts = [msg_export_failed], logged = [error],
              sourceContainer_attached = True\<rparr>)"

text \<open>
  Two notions for stating the layout properties. The cursor is \<open>consistent\<close> with the
  document when it is at the top margin exactly if the current page is still empty, and
  below it otherwise. A page keeps an oversized item \<open>alone\<close> when every item on it that is
  taller than the usable height is the only item of the page and sits at
  \<open>(margin, margin)\<close>.
\<close>

definition cursor_consistent :: "real \<Rightarrow> 'd export_state \<Rightarrow> bool" where
  "cursor_consistent margin st \<longleftrightarrow>
     pdf st \<noteq> [] \<and> margin \<le> currentY st \<and> (last (pdf st) = [] \<longleftrightarrow> currentY st = margin)"

definition oversized_alone :: "real \<Rightarrow> real \<Rightarrow> 'd drawn list \<Rightarrow> bool" where
  "oversized_alone margin usableHeightMM page \<longleftrightarrow>
     (\<forall>item \<in> set page. height_of item > usableHeightMM \<longrightarrow>
        page = [item] \<and> left_of item = margin \<and> top_of item = margin)"



section \<open>Properties of the retry executor\<close>

subsection \<open>Auxiliary facts\<close>

lemma empty_response_not_retryable:
  "\<not> isRetryable (toString (Error (ascii ''AI returned an empty or invalid response.'')))"
  by (simp add: isRetryable_def toString_def Error_def js_includes_def ascii_def sublist_code)

lemma no_text_retryable_socratic: "isRetryable_socratic (toString (Error msg_no_text))"
  by (simp add: isRetryable_socratic_def toString_def Error_def js_includes_def ascii_def
      msg_no_text_def msg_no_text_marker_def sublist_code)

lemma generateContent_try_no_text:
  "no_text a \<Longrightarrow>
   generateContent_try a = Inl (Error (ascii ''AI returned an empty or invalid response.''))"
  by (auto simp: no_text_def generateContent_try_def split: attempt.splits option.splits)

lemma getSocraticResponse_try_no_text:
  "no_text a \<Longrightarrow> getSocraticResponse_try a = Inl (Error msg_no_text)"
  by (auto simp: no_text_def getSocraticResponse_try_def split: attempt.splits option.splits)

lemma socratic_skip_no_text:
  assumes "k < retries"
  shows "\<forall>j. i \<le> j \<and> j < k \<longrightarrow> no_text (sendMessage j) \<Longrightarrow> i \<le> k \<Longrightarrow>
    getSocraticResponse_loop sendMessage random retries i delay lastError waited =
    getSocraticResponse_loop sendMessage random retries k (delay * 2 ^ (k - i))
      (if k = i then lastError else Some (Error msg_no_text))
      (waited @ map (\<lambda>j. delay * 2 ^ (j - i) + jitter_of (random j)) [i..<k])"
proof (induction "k - i" arbitrary: i delay lastError waited)
  case 0
  then show ?case by simp
next
  case (Suc m)
  then have lt: "i < k" and m: "m = k - Suc i" and le: "Suc i \<le> k" by simp_all
  have nt: "getSocraticResponse_try (sendMessage i) = Inl (Error msg_no_text)"
  proof -
    have "no_text (sendMessage i)" using Suc.prems(1) lt by auto
    then show ?thesis by (rule getSocraticResponse_try_no_text)
  qed
  have all: "\<forall>j. Suc i \<le> j \<and> j < k \<longrightarrow> no_text (sendMessage j)" using Suc.prems(1) by simp
  have pw: "delay * 2 * 2 ^ (k - Suc i) = delay * 2 ^ (k - i)"
    using lt by (simp add: Suc_diff_Suc flip: power_Suc)
  have mp: "map (\<lambda>j. delay * 2 ^ (j - i) + jitter_of (random j)) [i..<k]
      = (delay + jitter_of (random i))
        # map (\<lambda>j. delay * 2 * 2 ^ (j - Suc i) + jitter_of (random j)) [Suc i..<k]"
  proof -
    have "[i..<k] = i # [Suc i..<k]" using lt by (simp add: upt_conv_Cons)
    moreover have "\<forall>j\<in>set [Suc i..<k]. delay * 2 ^ (j - i) = delay * 2 * 2 ^ (j - Suc i)"
    proof
      fix j assume "j \<in> set [Suc i..<k]"
      then have "j - i = Suc (j - Suc i)" by auto
      then show "delay * 2 ^ (j - i) = delay * 2 * 2 ^ (j - Suc i)" by simp
    qed
    ultimately show ?thesis by simp
  qed
  have step: "getSocraticResponse_loop sendMessage random retries i delay lastError waited =
      getSocraticResponse_loop sendMessage random retries (Suc i) (delay * 2)
        (Some (Error msg_no_text)) (waited @ [delay + jitter_of (random i)])"
    using nt no_text_retryable_socratic lt assms
    by (subst getSocraticResponse_loop.simps) simp
  show ?case
    using Suc.hyps(1)[OF m all le, of "delay * 2" "Some (Error msg_no_text)"
        "waited @ [delay + jitter_of (random i)]"] lt step pw mp
    by simp
qed

lemma socratic_calls_slept:
  "i < retries \<Longrightarrow>
   i < calls (getSocraticResponse_loop sendMessage random retries i delay lastError waited)
   \<and> prefix waited (slept (getSocraticResponse_loop sendMessage random retries i delay lastError waited))"
proof (induction sendMessage random retries i delay lastError waited
    rule: getSocraticResponse_loop.induct)
  case (1 sendMessage random retries i delay lastError waited)
  show ?case
  proof (cases "getSocraticResponse_try (sendMessage i)")
    case (Inr t)
    then show ?thesis using "1.prems" by (subst (1 2) getSocraticResponse_loop.simps) simp
  next
    case (Inl e)
    show ?thesis
    proof (cases "isRetryable_socratic (toString e) \<and> int i < int retries - 1")
      case True
      then have "Suc i < retries" by linarith
      from "1.IH"[OF "1.prems" Inl True this] show ?thesis
        using Inl True "1.prems"
        by (subst (1 2) getSocraticResponse_loop.simps) (auto dest: append_prefixD)
    next
      case False
      then show ?thesis using Inl "1.prems"
        by (subst (1 2) getSocraticResponse_loop.simps) auto
    qed
  qed
qed










subsection \<open>Replies without text\<close>

text \<open>
  Claim C1, as the code has it. In \<open>getSocraticResponse\<close> a reply without text is a
  retryable failure: when the first \<open>k < 5\<close> replies carry no text, the loop has waited
  after each of them (the \<open>k\<close> backoff delays, in order) and makes attempt \<open>k + 1\<close>;
  if that attempt yields a text, the text is returned. In \<open>generateContentWithRetry\<close> the
  error raised for a reply without text is not in the list of retryable errors: it is
  thrown after that one attempt, with no wait and no retry, however many attempts remain.
\<close>

theorem empty_response_retry:
  "(k < 5 \<and> (\<forall>j<k. no_text (sendMessage j)) \<longrightarrow>
      k < calls (getSocraticResponse sendMessage random)
      \<and> take k (slept (getSocraticResponse sendMessage random))
          = map (\<lambda>j. 3000 * 2 ^ j + jitter_of (random j)) [0..<k]
      \<and> (\<forall>t. getSocraticResponse_try (sendMessage k) = Inr t \<longrightarrow>
            outcome (getSocraticResponse sendMessage random) = Inr t
            \<and> calls (getSocraticResponse sendMessage random) = Suc k))
   \<and> (1 \<le> retries \<and> no_text (generateContent 0) \<longrightarrow>
        generateContentWithRetry generateContent random' retries delay
          = \<lparr>outcome = Inl (Some (Error (ascii ''AI returned an empty or invalid response.''))),
             calls = 1, slept = []\<rparr>)"
proof (intro conjI impI)
  assume h: "k < 5 \<and> (\<forall>j<k. no_text (sendMessage j))"
  let ?w = "map (\<lambda>j. 3000 * 2 ^ j + jitter_of (random j)) [0..<k]"
  let ?le = "if k = 0 then None else Some (Error msg_no_text)"
  have skip: "getSocraticResponse sendMessage random
      = getSocraticResponse_loop sendMessage random 5 k (3000 * 2 ^ k) ?le ?w"
    using socratic_skip_no_text[of k 5 0 sendMessage random 3000 None "[]"] h
    by (simp add: getSocraticResponse_def)
  have k5: "k < 5" using h by simp
  from socratic_calls_slept[OF k5, of sendMessage random "3000 * 2 ^ k" ?le ?w]
  show "k < calls (getSocraticResponse sendMessage random)"
    and "take k (slept (getSocraticResponse sendMessage random)) = ?w"
    unfolding skip by (auto simp: prefix_def)
  show "\<forall>t. getSocraticResponse_try (sendMessage k) = Inr t \<longrightarrow>
      outcome (getSocraticResponse sendMessage random) = Inr t
      \<and> calls (getSocraticResponse sendMessage random) = Suc k"
    unfolding skip using k5 by (subst (1 2) getSocraticResponse_loop.simps) simp
next
  assume h: "1 \<le> retries \<and> no_text (generateContent 0)"
  then have "generateContent_try (generateContent 0)
      = Inl (Error (ascii ''AI returned an empty or invalid response.''))"
    by (simp add: generateContent_try_no_text)
  then show "generateContentWithRetry generateContent random' retries delay
      = \<lparr>outcome = Inl (Some (Error (ascii ''AI returned an empty or invalid response.''))),
         calls = 1, slept = []\<rparr>"
    using h empty_response_not_retryable by (simp add: generateContentWithRetry_def)
qed

theorem empty_response_retry_witness:
  "(2::nat) < 5
   \<and> no_text ((\<lambda>i::nat. Resolved (Some \<lparr>response_text = (if i < 2 then Some [] else Some (ascii ''F = ma?''))\<rparr>)) 0)
   \<and> no_text ((\<lambda>i::nat. Resolved (Some \<lparr>response_text = (if i < 2 then Some [] else Some (ascii ''F = ma?''))\<rparr>)) 1)
   \<and> outcome (getSocraticResponse
        (\<lambda>i. Resolved (Some \<lparr>response_text = (if i < 2 then Some [] else Some (ascii ''F = ma?''))\<rparr>))
        (\<lambda>i. 1 / 2)) = Inr (ascii ''F = ma?'')
   \<and> calls (getSocraticResponse
        (\<lambda>i. Resolved (Some \<lparr>response_text = (if i < 2 then Some [] else Some (ascii ''F = ma?''))\<rparr>))
        (\<lambda>i. 1 / 2)) = 3
   \<and> take 2 (slept (getSocraticResponse
        (\<lambda>i. Resolved (Some \<lparr>response_text = (if i < 2 then Some [] else Some (ascii ''F = ma?''))\<rparr>))
        (\<lambda>i. 1 / 2))) = [3500, 6500]
   \<and> (1::nat) \<le> 5 \<and> no_text ((\<lambda>i. Resolved (Some \<lparr>response_text = None\<rparr>)) (0::nat))
   \<and> generateContentWithRetry (\<lambda>i. Resolved (Some \<lparr>response_text = None\<rparr>)) (\<lambda>i. 1 / 2) 5 3000
      = \<lparr>outcome = Inl (Some (Error (ascii ''AI returned an empty or invalid response.''))),
         calls = 1, slept = []\<rparr>"
proof -
  let ?op = "\<lambda>i::nat. Resolved (Some \<lparr>response_text = (if i < 2 then Some [] else Some (ascii ''F = ma?''))\<rparr>)"
  let ?op' = "\<lambda>i::nat. Resolved (Some \<lparr>response_text = None\<rparr>)"
  note T = empty_response_retry[of 2 ?op "\<lambda>i. 1 / 2" 5 ?op' "\<lambda>i. 1 / 2" 3000]
  have h1: "(2::nat) < 5 \<and> (\<forall>j<2. no_text (?op j))" by (simp add: no_text_def)
  have h2: "(1::nat) \<le> 5 \<and> no_text (?op' 0)" by (simp add: no_text_def)
  have t: "getSocraticResponse_try (?op 2) = Inr (ascii ''F = ma?'')"
    by (simp add: getSocraticResponse_try_def ascii_def)
  have j: "jitter_of (1 / 2) = 500" by (simp add: jitter_of_def)
  let ?S = "getSocraticResponse ?op (\<lambda>i. 1 / 2)"
  from T h1 t have a: "outcome ?S = Inr (ascii ''F = ma?'') \<and> calls ?S = Suc 2
      \<and> take 2 (slept ?S) = map (\<lambda>j. 3000 * 2 ^ j + jitter_of (1 / 2)) [0..<2]"
    by blast
  have m: "map (\<lambda>j. 3000 * 2 ^ j + jitter_of (1 / 2)) [0..<2] = [3500, 6500]"
    by (simp add: j upt_rec)
  from T h2 have b: "generateContentWithRetry ?op' (\<lambda>i. 1 / 2) 5 3000
      = \<lparr>outcome = Inl (Some (Error (ascii ''AI returned an empty or invalid response.''))),
         calls = 1, slept = []\<rparr>"
    by blast
  have n0: "no_text (?op 0)" and n1: "no_text (?op 1)" by (simp_all add: no_text_def)
  show ?thesis using a b h2 n0 n1 unfolding m by simp
qed

text \<open>
  The executor \<open>generateContentWithRetry\<close> on replies with an empty text and five
  attempts allowed: one call, no wait, and the empty-response error is thrown.
\<close>

theorem empty_response_retry_counterexample:
  "no_text (Resolved (Some \<lparr>response_text = Some []\<rparr>))
   \<and> generateContentWithRetry (\<lambda>i. Resolved (Some \<lparr>response_text = Some []\<rparr>)) (\<lambda>i. 0) 5 3000
       = \<lparr>outcome = Inl (Some (Error (ascii ''AI returned an empty or invalid response.''))),
          calls = 1, slept = []\<rparr>"
proof -
  have nt: "no_text (Resolved (Some \<lparr>response_text = Some []\<rparr>))" by (simp add: no_text_def)
  show ?thesis
    using nt generateContent_try_no_text[OF nt] empty_response_not_retryable
    by (simp add: generateContentWithRetry_def)
qed

subsection \<open>Exhausting the attempts\<close>



subsection \<open>Errors that are not retried\<close>

text \<open>
  Claim C3. When the first attempt rejects with an error that is not classified as
  retryable, \<open>generateContentWithRetry\<close> makes exactly one call, waits for nothing and
  throws that error, whatever \<open>retries \<ge> 1\<close> is.
\<close>

theorem non_retryable_single_attempt:
  "1 \<le> retries \<Longrightarrow> generateContent 0 = Rejected e \<Longrightarrow> \<not> isRetryable (toString e) \<Longrightarrow>
   generateContentWithRetry generateContent random retries delay
     = \<lparr>outcome = Inl (Some e), calls = 1, slept = []\<rparr>"
  by (simp add: generateContentWithRetry_def generateContent_try_def)

theorem non_retryable_single_attempt_witness:
  "(1::nat) \<le> 5
   \<and> (\<lambda>i. Rejected (Error (ascii ''400 Bad Request''))) (0::nat) = Rejected (Error (ascii ''400 Bad Request''))
   \<and> \<not> isRetryable (toString (Error (ascii ''400 Bad Request'')))
   \<and> generateContentWithRetry (\<lambda>i. Rejected (Error (ascii ''400 Bad Request''))) (\<lambda>i. 0) 5 3000
       = \<lparr>outcome = Inl (Some (Error (ascii ''400 Bad Request''))), calls = 1, slept = []\<rparr>"
proof -
  have nr: "\<not> isRetryable (toString (Error (ascii ''400 Bad Request'')))"
    by (simp add: isRetryable_def toString_def Error_def js_includes_def ascii_def sublist_code)
  have n: "(1::nat) \<le> 5" by simp
  have c: "(\<lambda>i. Rejected (Error (ascii ''400 Bad Request''))) (0::nat)
      = Rejected (Error (ascii ''400 Bad Request''))" by simp
  show ?thesis
    using non_retryable_single_attempt[OF n c nr, of "\<lambda>i. 0" 3000] nr by simp
qed

subsection \<open>Backoff delays\<close>



section \<open>Properties of the structured-response parser\<close>

subsection \<open>Auxiliary facts\<close>

lemma parse_number_one: "parse_number (49 # 125 # r) = Some (JNumber 1, 125 # r)"
  by (simp add: parse_number_def is_digit_def digits_value_def Let_def)

lemma ws_simps: "skip_ws [] = []" "skip_ws (c # cs) = (if is_json_whitespace c then skip_ws cs else c # cs)"
  by (simp_all add: skip_ws_def)

lemma parse_value_numeral:
  "parse_value (numeral k) s =
     (case skip_ws s of
        [] \<Rightarrow> None
      | c # cs \<Rightarrow>
          if c = 123 then
            (if skip_ws cs \<noteq> [] \<and> hd (skip_ws cs) = 125 then Some (JObject fmempty, tl (skip_ws cs))
             else parse_members (pred_numeral k) fmempty cs)
          else if c = 91 then
            (if skip_ws cs \<noteq> [] \<and> hd (skip_ws cs) = 93 then Some (JArray [], tl (skip_ws cs))
             else map_option (\<lambda>(vs, r). (JArray vs, r)) (parse_elements (pred_numeral k) cs))
          else if c = 34 then map_option (\<lambda>(str, r). (JString str, r)) (parse_string cs)
          else if prefix (ascii ''true'') (c # cs) then Some (JBool True, drop 4 (c # cs))
          else if prefix (ascii ''false'') (c # cs) then Some (JBool False, drop 5 (c # cs))
          else if prefix (ascii ''null'') (c # cs) then Some (JNull, drop 4 (c # cs))
          else parse_number (c # cs))"
proof -
  have "numeral k = Suc (pred_numeral k)" by (rule numeral_eq_Suc)
  then show ?thesis by (simp only: parse_value.simps)
qed

lemma parse_elements_numeral:
  "parse_elements (numeral k) s =
     (case parse_value (pred_numeral k) s of
        None \<Rightarrow> None
      | Some (v, r) \<Rightarrow>
          (case skip_ws r of
             [] \<Rightarrow> None
           | c # r' \<Rightarrow>
               if c = 44 then map_option (\<lambda>(vs, r''). (v # vs, r'')) (parse_elements (pred_numeral k) r')
               else if c = 93 then Some ([v], r')
               else None))"
proof -
  have "numeral k = Suc (pred_numeral k)" by (rule numeral_eq_Suc)
  then show ?thesis by (simp only: parse_elements.simps)
qed

lemma parse_members_numeral:
  "parse_members (numeral k) acc s =
     (case skip_ws s of
        [] \<Rightarrow> None
      | q # cs \<Rightarrow>
          if q \<noteq> 34 then None
          else
            (case parse_string cs of
               None \<Rightarrow> None
             | Some (key, r) \<Rightarrow>
                 (case skip_ws r of
                    [] \<Rightarrow> None
                  | colon # r' \<Rightarrow>
                      if colon \<noteq> 58 then None
                      else
                        (case parse_value (pred_numeral k) r' of
                           None \<Rightarrow> None
                         | Some (v, r'') \<Rightarrow>
                             (case skip_ws r'' of
                                [] \<Rightarrow> None
                              | c # r3 \<Rightarrow>
                                  if c = 44 then parse_members (pred_numeral k) (fmupd key v acc) r3
                                  else if c = 125 then Some (JObject (fmupd key v acc), r3)
                                  else None)))))"
proof -
  have "numeral k = Suc (pred_numeral k)" by (rule numeral_eq_Suc)
  then show ?thesis by (simp only: parse_members.simps)
qed

lemmas fuel_numeral = parse_value_numeral parse_elements_numeral parse_members_numeral

lemma payload_plain_units: "payload_plain = [123, 34, 97, 34, 58, 49, 125]"
  by (simp add: payload_plain_def quoted_def ascii_def)

lemma JSON_parse_payload_plain:
  "JSON_parse [123, 34, 97, 34, 58, 49, 125] = Some (JObject (fmupd [97] (JNumber 1) fmempty))"
  by (simp add: JSON_parse_def fuel_numeral ws_simps is_json_whitespace_def parse_number_one ascii_def)

lemma JSON_parse_payload_plain_newline:
  "JSON_parse [123, 34, 97, 34, 58, 49, 125, 10] = Some (JObject (fmupd [97] (JNumber 1) fmempty))"
  by (simp add: JSON_parse_def fuel_numeral ws_simps is_json_whitespace_def parse_number_one ascii_def)

lemma JSON_parse_not_json: "JSON_parse (ascii ''not json'') = None"
  by (simp add: JSON_parse_def fuel_numeral ws_simps is_json_whitespace_def ascii_def
      parse_number_def is_digit_def Let_def)

lemma trim_no_space:
  "s \<noteq> [] \<Longrightarrow> \<not> is_js_whitespace (hd s) \<Longrightarrow> \<not> is_js_whitespace (last s) \<Longrightarrow> trim s = s"
proof -
  assume ne: "s \<noteq> []" and h: "\<not> is_js_whitespace (hd s)" and l: "\<not> is_js_whitespace (last s)"
  have a: "dropWhile is_js_whitespace s = s" using ne h by (cases s) simp_all
  obtain b bs where r: "rev s = b # bs" using ne by (cases "rev s") simp_all
  have "hd (rev s) = last s" using ne by (simp add: hd_rev)
  then have "b = last s" using r by simp
  then have "dropWhile is_js_whitespace (b # bs) = b # bs" using l by simp
  then have "dropWhile is_js_whitespace (rev s) = rev s" unfolding r .
  then show ?thesis by (simp add: trim_def a)
qed

lemma cleaned_json_fenced:
  "replace_trailing_fence (replace_leading_json_fence (trim payload_json_fenced))
     = [123, 34, 97, 34, 58, 49, 125, 10]"
proof -
  have u: "payload_json_fenced
      = [96, 96, 96, 106, 115, 111, 110, 10, 123, 34, 97, 34, 58, 49, 125, 10, 96, 96, 96]"
    by (simp add: payload_json_fenced_def payload_plain_units fence_def ascii_def)
  have t: "trim payload_json_fenced = payload_json_fenced"
    by (rule trim_no_space) (simp_all add: u is_js_whitespace_def)
  have l: "replace_leading_json_fence payload_json_fenced
      = [123, 34, 97, 34, 58, 49, 125, 10, 96, 96, 96]"
    by (simp add: u replace_leading_json_fence_def fence_def ascii_def)
  have "suffix fence ([123, 34, 97, 34, 58, 49, 125, 10] @ fence)" by (rule suffix_appendI) simp
  then have "replace_trailing_fence ([123, 34, 97, 34, 58, 49, 125, 10] @ fence)
      = [123, 34, 97, 34, 58, 49, 125, 10]"
    unfolding replace_trailing_fence_def by simp
  then show ?thesis unfolding t l by (simp add: fence_def)
qed

lemma cleaned_plain:
  "replace_trailing_fence (replace_leading_json_fence (trim payload_plain))
     = [123, 34, 97, 34, 58, 49, 125]"
proof -
  have t: "trim payload_plain = payload_plain"
    by (rule trim_no_space) (simp_all add: payload_plain_units is_js_whitespace_def)
  show ?thesis
    unfolding t
    by (simp add: payload_plain_units replace_leading_json_fence_def replace_trailing_fence_def
        fence_def ascii_def suffix_def)
qed

lemma cleaned_not_json:
  "replace_trailing_fence (replace_leading_json_fence (trim (ascii ''not json''))) = ascii ''not json''"
proof -
  have t: "trim (ascii ''not json'') = ascii ''not json''"
    by (rule trim_no_space) (simp_all add: ascii_def is_js_whitespace_def)
  show ?thesis
    unfolding t
    by (simp add: replace_leading_json_fence_def replace_trailing_fence_def fence_def ascii_def
        suffix_def)
qed

lemma msg_bad_format_distinct:
  "msg_bad_format \<noteq> msg_default" "msg_bad_format \<noteq> msg_unavailable"
  "msg_bad_format \<noteq> msg_bad_request" "msg_bad_format \<noteq> msg_rate_limited"
  "msg_bad_format \<noteq> msg_api_key"
  by (simp_all add: msg_bad_format_def msg_default_def msg_unavailable_def msg_bad_request_def
      msg_rate_limited_def msg_api_key_def)

lemma handleApiError_not_bad_format: "handleApiError error ctxt \<noteq> Error msg_bad_format"
  using msg_bad_format_distinct
  by (simp add: handleApiError_def Error_def Let_def)

text \<open>
  Claim C5. \<open>parseJsonFromResponse\<close> returns the object with the single member \<open>a = 1\<close>
  for the text \<open>{"a":1}\<close> wrapped in a \<open>json\<close> fence and for the same text without
  fences, and for \<open>not json\<close> it throws the error with the fixed "format is incorrect,
  cannot be parsed" message. No error produced by \<open>handleApiError\<close>, which reports the
  network and service failures, is that error.
\<close>

theorem parse_reference_cases:
  "parseJsonFromResponse payload_json_fenced = Inr (JObject (fmupd (ascii ''a'') (JNumber 1) fmempty))
   \<and> parseJsonFromResponse payload_plain = Inr (JObject (fmupd (ascii ''a'') (JNumber 1) fmempty))
   \<and> parseJsonFromResponse (ascii ''not json'') = Inl (Error msg_bad_format)
   \<and> (\<forall>error ctxt. handleApiError error ctxt \<noteq> Error msg_bad_format)"
proof -
  have a: "ascii ''a'' = [97]" by (simp add: ascii_def)
  show ?thesis
    unfolding parseJsonFromResponse_def Let_def cleaned_json_fenced cleaned_plain cleaned_not_json
      JSON_parse_payload_plain JSON_parse_payload_plain_newline JSON_parse_not_json a
    using handleApiError_not_bad_format by simp
qed

lemma JSON_parse_backtick: "s = [] \<or> hd s = 96 \<Longrightarrow> JSON_parse s = None"
proof (cases s)
  case Nil
  then show ?thesis by (simp add: JSON_parse_def ws_simps)
next
  case (Cons c cs)
  assume "s = [] \<or> hd s = 96"
  with Cons have c: "c = 96" by simp
  have n: "parse_number (96 # cs) = None"
    by (simp add: parse_number_def is_digit_def Let_def)
  show ?thesis
    unfolding Cons c JSON_parse_def
    by (simp add: ws_simps is_json_whitespace_def ascii_def n)
qed

lemma bare_fence_cleaned:
  assumes "prefix fence s" and "\<not> prefix (fence @ ascii ''json'') s"
  shows "replace_trailing_fence (replace_leading_json_fence s) = []
       \<or> hd (replace_trailing_fence (replace_leading_json_fence s)) = 96"
proof -
  from assms(1) obtain r where s: "s = 96 # 96 # 96 # r" by (auto simp: prefix_def fence_def)
  have l: "replace_leading_json_fence s = s" using assms(2) by (simp add: replace_leading_json_fence_def)
  show ?thesis
  proof (cases "suffix fence s")
    case True
    then have "replace_trailing_fence s = take (length r) s"
      by (simp add: replace_trailing_fence_def s fence_def)
    then show ?thesis unfolding l by (cases r) (simp_all add: s)
  next
    case False
    then show ?thesis unfolding l by (simp add: replace_trailing_fence_def s)
  qed
qed

text \<open>
  Claim C10. The leading replacement removes exactly the token of three backticks and
  \<open>json\<close>, with one line feed if it follows, and leaves every string that does not start
  with that token unchanged; the trailing replacement removes three backticks at the very
  end and leaves every other string unchanged. So a payload whose trimmed text starts with
  a fence that is not tagged \<open>json\<close> keeps its leading backticks and is rejected with the
  malformed-response error; in particular \<open>{"a":1}\<close> in a bare fence is rejected although
  \<open>{"a":1}\<close> itself is valid.
\<close>

theorem fence_stripping_asymmetry:
  "(\<forall>s. replace_leading_json_fence (fence @ ascii ''json'' @ [10] @ s) = s)
   \<and> (\<forall>s. (s = [] \<or> hd s \<noteq> 10) \<longrightarrow> replace_leading_json_fence (fence @ ascii ''json'' @ s) = s)
   \<and> (\<forall>s. \<not> prefix (fence @ ascii ''json'') s \<longrightarrow> replace_leading_json_fence s = s)
   \<and> (\<forall>s. replace_trailing_fence (s @ fence) = s)
   \<and> (\<forall>s. \<not> suffix fence s \<longrightarrow> replace_trailing_fence s = s)
   \<and> (\<forall>text. prefix fence (trim text) \<and> \<not> prefix (fence @ ascii ''json'') (trim text) \<longrightarrow>
         parseJsonFromResponse text = Inl (Error msg_bad_format))
   \<and> parseJsonFromResponse payload_bare_fenced = Inl (Error msg_bad_format)
   \<and> JSON_parse payload_plain = Some (JObject (fmupd (ascii ''a'') (JNumber 1) fmempty))"
proof -
  have f1: "replace_leading_json_fence (fence @ ascii ''json'' @ [10] @ s) = s" for s
    by (simp add: replace_leading_json_fence_def)
  have f2: "replace_leading_json_fence (fence @ ascii ''json'' @ s) = s" if "s = [] \<or> hd s \<noteq> 10" for s
    using that by (auto simp: replace_leading_json_fence_def)
  have f3: "replace_leading_json_fence s = s" if "\<not> prefix (fence @ ascii ''json'') s" for s
    using that by (simp add: replace_leading_json_fence_def)
  have f4: "replace_trailing_fence (s @ fence) = s" for s
  proof -
    have "suffix fence (s @ fence)" by (rule suffix_appendI) simp
    then show ?thesis by (simp add: replace_trailing_fence_def)
  qed
  have f5: "replace_trailing_fence s = s" if "\<not> suffix fence s" for s
    using that by (simp add: replace_trailing_fence_def)
  have f6: "parseJsonFromResponse raw = Inl (Error msg_bad_format)"
    if "prefix fence (trim raw) \<and> \<not> prefix (fence @ ascii ''json'') (trim raw)" for raw
  proof -
    from that bare_fence_cleaned[of "trim raw"]
    have "JSON_parse (replace_trailing_fence (replace_leading_json_fence (trim raw))) = None"
      by (intro JSON_parse_backtick) blast
    then show ?thesis by (simp add: parseJsonFromResponse_def)
  qed
  have u: "payload_bare_fenced = [96, 96, 96, 10, 123, 34, 97, 34, 58, 49, 125, 10, 96, 96, 96]"
    by (simp add: payload_bare_fenced_def payload_plain_units fence_def)
  have t: "trim payload_bare_fenced = payload_bare_fenced"
    by (rule trim_no_space) (simp_all add: u is_js_whitespace_def)
  have "prefix fence (trim payload_bare_fenced) \<and> \<not> prefix (fence @ ascii ''json'') (trim payload_bare_fenced)"
    unfolding t by (simp add: u fence_def ascii_def)
  then have f7: "parseJsonFromResponse payload_bare_fenced = Inl (Error msg_bad_format)" by (rule f6)
  have f8: "JSON_parse payload_plain = Some (JObject (fmupd (ascii ''a'') (JNumber 1) fmempty))"
    unfolding payload_plain_units JSON_parse_payload_plain by (simp add: ascii_def)
  show ?thesis using f1 f2 f3 f4 f5 f6 f7 f8 by blast
qed

theorem fence_stripping_asymmetry_witness:
  "prefix fence (trim payload_bare_fenced)
   \<and> \<not> prefix (fence @ ascii ''json'') (trim payload_bare_fenced)
   \<and> parseJsonFromResponse payload_bare_fenced = Inl (Error msg_bad_format)
   \<and> \<not> suffix fence payload_plain \<and> replace_trailing_fence payload_plain = payload_plain
   \<and> replace_leading_json_fence payload_bare_fenced = payload_bare_fenced"
proof -
  have u: "payload_bare_fenced = [96, 96, 96, 10, 123, 34, 97, 34, 58, 49, 125, 10, 96, 96, 96]"
    by (simp add: payload_bare_fenced_def payload_plain_units fence_def)
  have t: "trim payload_bare_fenced = payload_bare_fenced"
    by (rule trim_no_space) (simp_all add: u is_js_whitespace_def)
  have h: "prefix fence (trim payload_bare_fenced) \<and> \<not> prefix (fence @ ascii ''json'') (trim payload_bare_fenced)"
    unfolding t by (simp add: u fence_def ascii_def)
  have nb: "\<not> prefix (fence @ ascii ''json'') payload_bare_fenced"
    by (simp add: u fence_def ascii_def)
  have ns: "\<not> suffix fence payload_plain"
    by (simp add: payload_plain_units fence_def suffix_def)
  note T = fence_stripping_asymmetry
  from T h have "parseJsonFromResponse payload_bare_fenced = Inl (Error msg_bad_format)" by blast
  moreover from T ns have "replace_trailing_fence payload_plain = payload_plain" by blast
  moreover from T nb have "replace_leading_json_fence payload_bare_fenced = payload_bare_fenced" by blast
  ultimately show ?thesis using h ns by blast
qed

section \<open>Properties of the export\<close>

subsection \<open>Auxiliary facts\<close>

lemma draw_addPage: "draw (addPage p) item = p @ [[item]]"
  by (simp add: draw_def addPage_def)

lemma place_image_break:
  "currentY st > margin \<and> currentY st + elementHeightMM canvas usableWidthMM > usableHeightMM + margin \<Longrightarrow>
   place_image margin usableWidthMM usableHeightMM canvas st =
     \<lparr>pdf = pdf st @ [[Image (canvas_data canvas) margin margin usableWidthMM
                          (elementHeightMM canvas usableWidthMM)]],
      currentY = margin + elementHeightMM canvas usableWidthMM + 2\<rparr>"
  by (simp add: place_image_def addImage_def draw_addPage Let_def)

lemma place_image_stay:
  "\<not> (currentY st > margin \<and> currentY st + elementHeightMM canvas usableWidthMM > usableHeightMM + margin) \<Longrightarrow>
   place_image margin usableWidthMM usableHeightMM canvas st =
     \<lparr>pdf = butlast (pdf st) @ [last (pdf st) @ [Image (canvas_data canvas) margin (currentY st)
                 usableWidthMM (elementHeightMM canvas usableWidthMM)]],
      currentY = currentY st + elementHeightMM canvas usableWidthMM + 2\<rparr>"
  by (simp add: place_image_def addImage_def draw_def Let_def)



lemma elementHeightMM_nonneg: "0 \<le> usableWidthMM \<Longrightarrow> 0 \<le> elementHeightMM canvas usableWidthMM"
  by (simp add: elementHeightMM_def)

lemma cursor_consistent_place_image:
  assumes "cursor_consistent margin st" and "0 \<le> usableWidthMM"
  shows "cursor_consistent margin (place_image margin usableWidthMM usableHeightMM canvas st)"
proof -
  have h: "0 \<le> elementHeightMM canvas usableWidthMM" using assms(2) by (rule elementHeightMM_nonneg)
  show ?thesis
  proof (cases "currentY st > margin \<and> currentY st + elementHeightMM canvas usableWidthMM > usableHeightMM + margin")
    case True
    then show ?thesis using h by (simp add: place_image_break cursor_consistent_def)
  next
    case False
    then show ?thesis using h assms(1) by (simp add: place_image_stay cursor_consistent_def)
  qed
qed


lemma cursor_consistent_init: "cursor_consistent margin \<lparr>pdf = new_jsPDF, currentY = margin\<rparr>"
  by (simp add: cursor_consistent_def new_jsPDF_def)



lemma oversized_alone_single:
  "oversized_alone margin usableHeightMM [Image d margin margin w h]"
  by (simp add: oversized_alone_def)

lemma oversized_alone_none:
  "\<forall>item\<in>set page. \<not> height_of item > usableHeightMM \<Longrightarrow> oversized_alone margin usableHeightMM page"
  by (simp add: oversized_alone_def)

lemma oversized_place_image:
  assumes cc: "cursor_consistent margin st" and w: "0 \<le> usableWidthMM"
    and pages: "\<forall>page\<in>set (pdf st). oversized_alone margin usableHeightMM page"
    and cur: "\<forall>item\<in>set (last (pdf st)). height_of item > usableHeightMM \<longrightarrow>
               currentY st > usableHeightMM + margin"
  shows "(\<forall>page\<in>set (pdf (place_image margin usableWidthMM usableHeightMM canvas st)).
            oversized_alone margin usableHeightMM page)
       \<and> (\<forall>item\<in>set (last (pdf (place_image margin usableWidthMM usableHeightMM canvas st))).
            height_of item > usableHeightMM \<longrightarrow>
            currentY (place_image margin usableWidthMM usableHeightMM canvas st) > usableHeightMM + margin)"
proof -
  let ?h = "elementHeightMM canvas usableWidthMM"
  let ?d = "canvas_data canvas"
  have h: "0 \<le> ?h" using w by (rule elementHeightMM_nonneg)
  have ne: "pdf st \<noteq> []" using cc by (simp add: cursor_consistent_def)
  show ?thesis
  proof (cases "currentY st > margin \<and> currentY st + ?h > usableHeightMM + margin")
    case True
    then show ?thesis
      using pages by (simp add: place_image_break oversized_alone_single)
  next
    case False
    note stay = place_image_stay[OF False]
    have old: "\<forall>page\<in>set (butlast (pdf st)). oversized_alone margin usableHeightMM page"
      using pages by (auto dest: in_set_butlastD)
    show ?thesis
    proof (cases "currentY st > margin")
      case c: True
      with False have fit: "currentY st + ?h \<le> usableHeightMM + margin" by simp
      have none_old: "\<forall>item\<in>set (last (pdf st)). \<not> height_of item > usableHeightMM"
      proof
        fix item assume "item \<in> set (last (pdf st))"
        show "\<not> height_of item > usableHeightMM"
        proof
          assume "height_of item > usableHeightMM"
          with cur \<open>item \<in> set (last (pdf st))\<close> have "currentY st > usableHeightMM + margin" by blast
          with fit h show False by simp
        qed
      qed
      have small: "\<not> ?h > usableHeightMM" using fit c by simp
      have none: "\<forall>item\<in>set (last (pdf st) @ [Image ?d margin (currentY st) usableWidthMM ?h]).
          \<not> height_of item > usableHeightMM"
        using none_old small by auto
      show ?thesis
        using old none oversized_alone_none[OF none] by (simp add: stay)
    next
      case c: False
      then have "currentY st = margin" using cc by (simp add: cursor_consistent_def)
      then have e: "last (pdf st) = []" and y: "currentY st = margin"
        using cc by (simp_all add: cursor_consistent_def)
      show ?thesis
        using old by (simp add: stay e y oversized_alone_single)
    qed
  qed
qed

lemma exportToPdf_loop_all_rasterized:
  assumes w: "0 \<le> usableWidthMM"
  shows "cursor_consistent margin st \<Longrightarrow>
    \<forall>b\<in>set blocks. html2canvas b = Inr (raster b) \<Longrightarrow>
    \<forall>page\<in>set (pdf st). oversized_alone margin usableHeightMM page \<Longrightarrow>
    \<forall>item\<in>set (last (pdf st)). height_of item > usableHeightMM \<longrightarrow>
       currentY st > usableHeightMM + margin \<Longrightarrow>
    \<exists>st'. exportToPdf_loop html2canvas margin usableWidthMM usableHeightMM blocks st = Inr st'
      \<and> (\<exists>items. concat (pdf st') = concat (pdf st) @ items
            \<and> list_all2 (\<lambda>item b. \<exists>y. item = Image (canvas_data (raster b)) margin y usableWidthMM
                   (elementHeightMM (raster b) usableWidthMM)) items blocks)
      \<and> (\<forall>page\<in>set (pdf st'). oversized_alone margin usableHeightMM page)"
proof (induction blocks arbitrary: st)
  case Nil
  then show ?case by simp
next
  case (Cons block blocks)
  let ?st1 = "place_image margin usableWidthMM usableHeightMM (raster block) st"
  have r: "html2canvas block = Inr (raster block)" using Cons.prems(2) by simp
  have rest: "\<forall>b\<in>set blocks. html2canvas b = Inr (raster b)" using Cons.prems(2) by simp
  have cc1: "cursor_consistent margin ?st1"
    using Cons.prems(1) w by (rule cursor_consistent_place_image)
  note ov = oversized_place_image[OF Cons.prems(1) w Cons.prems(3) Cons.prems(4), of "raster block"]
  from Cons.IH[OF cc1 rest conjunct1[OF ov] conjunct2[OF ov]]
  obtain st' items where
    run: "exportToPdf_loop html2canvas margin usableWidthMM usableHeightMM blocks ?st1 = Inr st'"
    and cat: "concat (pdf st') = concat (pdf ?st1) @ items"
    and rel: "list_all2 (\<lambda>item b. \<exists>y. item = Image (canvas_data (raster b)) margin y usableWidthMM
                   (elementHeightMM (raster b) usableWidthMM)) items blocks"
    and al: "\<forall>page\<in>set (pdf st'). oversized_alone margin usableHeightMM page"
    by blast
  have ne: "pdf st \<noteq> []" using Cons.prems(1) by (simp add: cursor_consistent_def)
  have "\<exists>y. concat (pdf ?st1) = concat (pdf st) @ [Image (canvas_data (raster block)) margin y
      usableWidthMM (elementHeightMM (raster block) usableWidthMM)]"
  proof (cases "currentY st > margin \<and> currentY st + elementHeightMM (raster block) usableWidthMM > usableHeightMM + margin")
    case True
    then show ?thesis by (simp add: place_image_break)
  next
    case False
    have "concat (pdf st) = concat (butlast (pdf st) @ [last (pdf st)])" using ne by simp
    then show ?thesis by (simp add: place_image_stay[OF False])
  qed
  then obtain y where one: "concat (pdf ?st1) = concat (pdf st) @ [Image (canvas_data (raster block)) margin y
      usableWidthMM (elementHeightMM (raster block) usableWidthMM)]" by blast
  let ?item = "Image (canvas_data (raster block)) margin y usableWidthMM (elementHeightMM (raster block) usableWidthMM)"
  have "concat (pdf st') = concat (pdf st) @ (?item # items)" using cat one by simp
  moreover have "list_all2 (\<lambda>item b. \<exists>y. item = Image (canvas_data (raster b)) margin y usableWidthMM
                   (elementHeightMM (raster b) usableWidthMM)) (?item # items) (block # blocks)"
    using rel by auto
  ultimately show ?case using run r al by (simp del: concat_append)
qed

lemma exportToPdf_loop_failure:
  "block \<in> set blocks \<Longrightarrow> html2canvas block = Inl error \<Longrightarrow>
   \<exists>e. exportToPdf_loop html2canvas margin usableWidthMM usableHeightMM blocks st = Inl e"
proof (induction blocks arbitrary: st)
  case Nil
  then show ?case by simp
next
  case (Cons b blocks)
  show ?case
  proof (cases "html2canvas b")
    case (Inl e)
    then show ?thesis by simp
  next
    case (Inr canvas)
    with Cons.prems have "block \<in> set blocks" by auto
    from Cons.IH[OF this Cons.prems(2)] Inr show ?thesis by simp
  qed
qed








lemma oversized_example_run:
  "exportToPdf
     (\<lambda>b::nat. Inr \<lparr>canvas_width = 1800, canvas_height = (if b = 2 then 3000 else 1000),
                     canvas_data = b\<rparr>)
     210 297 [1, 2, 3] 0 (ascii ''notes'')
   = \<lparr>saved = Some (ascii ''notes.pdf'',
         [[Image 1 15 15 180 100], [Image 2 15 15 180 300], [Image 3 15 15 180 100]]),
       alerts = [], logged = [], sourceContainer_attached = False\<rparr>"
  by (simp add: exportToPdf_def contentBlocks_def place_image_def elementHeightMM_def
      new_jsPDF_def addPage_def addImage_def draw_def ascii_def Let_def)


subsection \<open>Three blocks of height 100\<close>

text \<open>
  Claim C6. On a page of 210 by 297 with margin 15 (usable height 267) and gap 2, three
  blocks whose scaled height is 100 each give a document of exactly two pages: the first
  two blocks on page 1 (at 15 and 117), the third block alone on page 2 (at 15).
\<close>

theorem three_blocks_two_pages:
  "elementHeightMM \<lparr>canvas_width = 1800, canvas_height = 1000, canvas_data = (1::nat)\<rparr> (210 - 15 * 2) = 100
   \<and> (297::real) - 15 * 2 = 267
   \<and> exportToPdf (\<lambda>b::nat. Inr \<lparr>canvas_width = 1800, canvas_height = 1000, canvas_data = b\<rparr>)
        210 297 [1, 2, 3] 0 (ascii ''notes'')
     = \<lparr>saved = Some (ascii ''notes.pdf'',
           [[Image 1 15 15 180 100, Image 2 15 117 180 100], [Image 3 15 15 180 100]]),
         alerts = [], logged = [], sourceContainer_attached = False\<rparr>"
  by (simp add: exportToPdf_def contentBlocks_def place_image_def elementHeightMM_def
      new_jsPDF_def addPage_def addImage_def draw_def ascii_def Let_def)

subsection \<open>Blocks taller than a page\<close>

text \<open>
  Claim C7. When every block rasterises, the export completes and saves the file; each
  block is drawn exactly once, in order, as one image of the full usable width and its
  full scaled height (so no block is split); and every image taller than the usable page
  height is the only item of its page and is drawn at \<open>(15, 15)\<close>. The canvases are
  taken with a positive pixel width, as the rasteriser returns them.
\<close>

theorem oversized_block_own_page:
  assumes "15 * 2 \<le> pdfWidth"
    and "\<forall>b\<in>set (contentBlocks selected sourceContainer).
           html2canvas b = Inr (raster b) \<and> 0 < canvas_width (raster b)"
  shows "\<exists>doc.
      exportToPdf html2canvas pdfWidth pdfHeight selected sourceContainer filename
        = \<lparr>saved = Some (filename @ ascii ''.pdf'', doc), alerts = [], logged = [],
           sourceContainer_attached = False\<rparr>
      \<and> list_all2
          (\<lambda>item b. \<exists>y. item = Image (canvas_data (raster b)) 15 y (pdfWidth - 15 * 2)
                            (elementHeightMM (raster b) (pdfWidth - 15 * 2)))
          (concat doc) (contentBlocks selected sourceContainer)
      \<and> (\<forall>page\<in>set doc. oversized_alone 15 (pdfHeight - 15 * 2) page)"
proof -
  let ?init = "\<lparr>pdf = new_jsPDF, currentY = 15::real\<rparr>"
  have w: "0 \<le> pdfWidth - 15 * 2" using assms(1) by simp
  have r: "\<forall>b\<in>set (contentBlocks selected sourceContainer). html2canvas b = Inr (raster b)"
    using assms(2) by simp
  have p: "\<forall>page\<in>set (pdf ?init). oversized_alone 15 (pdfHeight - 15 * 2) page"
    by (simp add: new_jsPDF_def oversized_alone_def)
  have c: "\<forall>item\<in>set (last (pdf ?init)). height_of item > pdfHeight - 15 * 2 \<longrightarrow>
      currentY ?init > pdfHeight - 15 * 2 + 15"
    by (simp add: new_jsPDF_def)
  from exportToPdf_loop_all_rasterized[OF w cursor_consistent_init r p c]
  obtain st' items where
    run: "exportToPdf_loop html2canvas 15 (pdfWidth - 15 * 2) (pdfHeight - 15 * 2)
            (contentBlocks selected sourceContainer) ?init = Inr st'"
    and cat: "concat (pdf st') = concat (pdf ?init) @ items"
    and rel: "list_all2 (\<lambda>item b. \<exists>y. item = Image (canvas_data (raster b)) 15 y (pdfWidth - 15 * 2)
                   (elementHeightMM (raster b) (pdfWidth - 15 * 2))) items
                (contentBlocks selected sourceContainer)"
    and al: "\<forall>page\<in>set (pdf st'). oversized_alone 15 (pdfHeight - 15 * 2) page"
    by blast
  have "concat (pdf st') = items" using cat by (simp add: new_jsPDF_def)
  with rel al run show ?thesis by (simp add: exportToPdf_def Let_def)
qed

theorem oversized_block_own_page_witness:
  "(15::real) * 2 \<le> 210
   \<and> exportToPdf
        (\<lambda>b::nat. Inr \<lparr>canvas_width = 1800, canvas_height = (if b = 2 then 3000 else 1000),
                        canvas_data = b\<rparr>)
        210 297 [1, 2, 3] 0 (ascii ''notes'')
      = \<lparr>saved = Some (ascii ''notes.pdf'',
            [[Image 1 15 15 180 100], [Image 2 15 15 180 300], [Image 3 15 15 180 100]]),
          alerts = [], logged = [], sourceContainer_attached = False\<rparr>
   \<and> height_of (Image (2::nat) 15 15 180 300) > 297 - 15 * 2
   \<and> oversized_alone 15 (297 - 15 * 2) [Image (2::nat) 15 15 180 300]"
proof -
  let ?raster = "\<lambda>b::nat. \<lparr>canvas_width = 1800, canvas_height = (if b = 2 then 3000 else 1000),
                     canvas_data = b\<rparr>"
  have w: "(15::real) * 2 \<le> 210" by simp
  have r: "\<forall>b\<in>set (contentBlocks [1, 2, 3] (0::nat)).
      (\<lambda>b. Inr (?raster b) :: js_error + nat canvas) b = Inr (?raster b) \<and> 0 < canvas_width (?raster b)"
    by simp
  from oversized_block_own_page[OF w r, of 297 "ascii ''notes''"]
  obtain doc where
    run: "exportToPdf (\<lambda>b. Inr (?raster b)) 210 297 [1, 2, 3] 0 (ascii ''notes'')
        = \<lparr>saved = Some (ascii ''notes'' @ ascii ''.pdf'', doc), alerts = [], logged = [],
           sourceContainer_attached = False\<rparr>"
    and al: "\<forall>page\<in>set doc. oversized_alone 15 (297 - 15 * 2) page"
    by blast
  have "doc = [[Image 1 15 15 180 100], [Image 2 15 15 180 300], [Image 3 15 15 180 100]]"
    using run unfolding oversized_example_run by simp
  with al have "oversized_alone 15 (297 - 15 * 2) [Image (2::nat) 15 15 180 300]" by simp
  then show ?thesis using w oversized_example_run by simp
qed

subsection \<open>The cursor invariant\<close>



subsection \<open>Failure of the rasteriser\<close>

text \<open>
  Claim C9. When the rasterisation of some block fails, \<open>exportToPdf\<close> saves no file,
  shows the failure notice once and logs the error; the document built so far is dropped.
\<close>

theorem rasterization_failure_aborts:
  assumes "block \<in> set (contentBlocks selected sourceContainer)"
    and "html2canvas block = Inl error"
  shows "\<exists>e. exportToPdf html2canvas pdfWidth pdfHeight selected sourceContainer filename
           = \<lparr>saved = None, alerts = [msg_export_failed], logged = [e],
              sourceContainer_attached = True\<rparr>"
proof -
  from assms exportToPdf_loop_failure[of block "contentBlocks selected sourceContainer"
      html2canvas error 15 "pdfWidth - 15 * 2" "pdfHeight - 15 * 2" "\<lparr>pdf = new_jsPDF, currentY = 15\<rparr>"]
  obtain e where "exportToPdf_loop html2canvas 15 (pdfWidth - 15 * 2) (pdfHeight - 15 * 2)
      (contentBlocks selected sourceContainer) \<lparr>pdf = new_jsPDF, currentY = 15\<rparr> = Inl e"
    by blast
  then show ?thesis by (simp add: exportToPdf_def Let_def)
qed

theorem rasterization_failure_aborts_witness:
  "(3::nat) \<in> set (contentBlocks [1, 2, 3] 0)
   \<and> (\<lambda>b::nat. if b = 3 then Inl (Error (ascii ''Unable to render''))
                 else Inr \<lparr>canvas_width = 1800, canvas_height = 1000, canvas_data = b\<rparr>) 3
       = Inl (Error (ascii ''Unable to render''))
   \<and> saved (exportToPdf
        (\<lambda>b::nat. if b = 3 then Inl (Error (ascii ''Unable to render''))
                   else Inr \<lparr>canvas_width = 1800, canvas_height = 1000, canvas_data = b\<rparr>)
        210 297 [1, 2, 3] 0 (ascii ''notes'')) = None
   \<and> alerts (exportToPdf
        (\<lambda>b::nat. if b = 3 then Inl (Error (ascii ''Unable to render''))
                   else Inr \<lparr>canvas_width = 1800, canvas_height = 1000, canvas_data = b\<rparr>)
        210 297 [1, 2, 3] 0 (ascii ''notes'')) = [msg_export_failed]"
proof -
  let ?h = "\<lambda>b::nat. if b = 3 then Inl (Error (ascii ''Unable to render''))
                 else Inr \<lparr>canvas_width = 1800, canvas_height = 1000, canvas_data = b\<rparr>"
  have m: "(3::nat) \<in> set (contentBlocks [1, 2, 3] 0)" by (simp add: contentBlocks_def)
  have f: "?h 3 = Inl (Error (ascii ''Unable to render''))" by simp
  from m f rasterization_failure_aborts[where html2canvas = ?h and block = 3
      and selected = "[1, 2, 3]" and sourceContainer = 0
      and error = "Error (ascii ''Unable to render'')"
      and pdfWidth = 210 and pdfHeight = 297 and filename = "ascii ''notes''"]
  obtain e where "exportToPdf ?h 210 297 [1, 2, 3] 0 (ascii ''notes'')
      = \<lparr>saved = None, alerts = [msg_export_failed], logged = [e], sourceContainer_attached = True\<rparr>"
    by blast
  then show ?thesis using m by simp
qed

end
